theory Spec2Isabelle
  imports Complex_Main
begin

section \<open>Scalar quantization: the embedding of \<open>komm/_quantization.py\<close>\<close>

text \<open>
  The source works on numpy arrays of \<open>float\<close> (IEEE doubles). Here a float is a real
  number and the arithmetic is exact. Three things of the source are therefore not in the
  embedding:
  \<^item> rounding: quotients and products are not rounded. The general statements below
    (order, fixed points, membership in the levels) are about exact arithmetic. Where
    two computed values are compared at a concrete input (C2), the input and the step are
    binary fractions, on which the double arithmetic of the source is exact as well;
  \<^item> infinities and NaN: they are not values of the model. Where numpy produces one (an
    array divided by zero, which warns and goes on without raising), the model returns the
    marker \<open>NonFinite\<close> in place of the result; the marker is not an exception of the
    source;
  \<^item> arrays of two or more dimensions: a signal is a scalar or a one-dimensional array.
\<close>

subsection \<open>Values and errors\<close>

text \<open>
  The three exceptions the source can raise on signals and parameters of the model, and
  the marker \<open>NonFinite\<close> for a result that holds an infinity or a NaN.
\<close>

datatype error = ValueError | ZeroDivisionError | IndexError | NonFinite

text \<open>
  An input or output signal: a scalar, or a one-dimensional array. (On an array of two or
  more dimensions \<open>ScalarQuantizer.__call__\<close> changes the shape or fails to broadcast;
  such inputs cannot be written here.)
\<close>

datatype ndarray = Scalar real | Array "real list"

text \<open>
  \<open>np.tile(input_signal, reps=(T, 1)).transpose()\<close> has one row for each element of
  a one-dimensional input, and a single row for a scalar.
\<close>

fun rows :: "ndarray \<Rightarrow> real list" where
  "rows (Scalar x) = [x]"
| "rows (Array xs) = xs"

text \<open>An elementwise numpy operation keeps the shape of its argument.\<close>

fun elementwise :: "(real \<Rightarrow> real) \<Rightarrow> ndarray \<Rightarrow> ndarray" where
  "elementwise f (Scalar x) = Scalar (f x)"
| "elementwise f (Array xs) = Array (map f xs)"

subsection \<open>ScalarQuantizer\<close>

record ScalarQuantizer =
  levels :: "real list"
  thresholds :: "real list"
  num_levels :: int

text \<open>\<open>np.unique\<close>: the sorted distinct elements.\<close>

definition np_unique :: "real list \<Rightarrow> real list" where
  "np_unique xs = sort (remdups xs)"

text \<open>
  \<open>interleaved = np.empty(2*L - 1); interleaved[0::2] = levels; interleaved[1::2] = thresholds\<close>
\<close>

definition interleaved :: "real list \<Rightarrow> real list \<Rightarrow> real list" where
  "interleaved lvls thrs =
     map (\<lambda>j. if even j then lvls ! (j div 2) else thrs ! (j div 2))
       [0 ..< 2 * length lvls - 1]"

definition ScalarQuantizer_init :: "real list \<Rightarrow> real list \<Rightarrow> error + ScalarQuantizer" where
  "ScalarQuantizer_init lvls thrs =
     (if int (length thrs) \<noteq> int (length lvls) - 1 then Inl ValueError
      else if np_unique (interleaved lvls thrs) \<noteq> interleaved lvls thrs then Inl ValueError
      else Inr \<lparr>levels = lvls, thresholds = thrs, num_levels = int (length lvls)\<rparr>)"

text \<open>\<open>np.sum(row > thresholds)\<close>: how many thresholds the input strictly exceeds.\<close>

definition count_exceeded :: "real list \<Rightarrow> real \<Rightarrow> nat" where
  "count_exceeded thrs x = length (filter (\<lambda>t. x > t) thrs)"

text \<open>
  \<open>ScalarQuantizer.__call__\<close>. Indexing \<open>levels\<close> out of range raises
  \<open>IndexError\<close> in numpy.
\<close>

definition ScalarQuantizer_call :: "'a ScalarQuantizer_scheme \<Rightarrow> ndarray \<Rightarrow> error + ndarray" where
  "ScalarQuantizer_call q input_signal =
     (let idx = map (count_exceeded (thresholds q)) (rows input_signal)
      in if list_all (\<lambda>i. i < length (levels q)) idx
         then Inr (Array (map (\<lambda>i. levels q ! i) idx))
         else Inl IndexError)"

subsection \<open>UniformQuantizer\<close>

record UniformQuantizer = ScalarQuantizer +
  quantization_step :: real
  input_peak :: real
  qtype :: string

text \<open>\<open>np.arange(a, b)\<close> on integers.\<close>

definition arange :: "int \<Rightarrow> int \<Rightarrow> real list" where
  "arange a b = map real_of_int [a .. b - 1]"

text \<open>\<open>thresholds = (levels + delta/2)[:-1]\<close>\<close>

definition derived_thresholds :: "real \<Rightarrow> real list \<Rightarrow> real list" where
  "derived_thresholds delta lvls = butlast (map (\<lambda>v. v + delta / 2) lvls)"

text \<open>
  The tail of \<open>UniformQuantizer.__init__\<close>, common to the three modes:
  the thresholds, the call of the parent constructor and the three fields.
\<close>

definition finish_init :: "real \<Rightarrow> real list \<Rightarrow> real \<Rightarrow> string \<Rightarrow> error + UniformQuantizer" where
  "finish_init delta lvls p t =
     (case ScalarQuantizer_init lvls (derived_thresholds delta lvls) of
        Inl e \<Rightarrow> Inl e
      | Inr q \<Rightarrow> Inr \<lparr>levels = levels q, thresholds = thresholds q, num_levels = num_levels q,
                     quantization_step = delta, input_peak = p, qtype = t\<rparr>)"

text \<open>
  \<open>UniformQuantizer.__init__(num_levels, input_peak, type_)\<close>. The step is a quotient
  of Python numbers, which raises \<open>ZeroDivisionError\<close> when \<open>num_levels\<close> is 0.
  \<open>//\<close> is floor division, as \<open>div\<close> on \<open>int\<close> is. For the two signed types
  the levels are a numpy array divided by \<open>num_levels // 2\<close>, which is 0 when
  \<open>num_levels\<close> is 1; the array is then \<open>[-input_peak]\<close>, and numpy does not raise:
  \<^item> for \<open>input_peak = 0\<close> the one level is \<open>0/0\<close>, a NaN, which differs from itself, so
    the comparison of the parent constructor fails and it raises \<open>ValueError\<close>;
  \<^item> otherwise the one level is \<open>-inf\<close> or \<open>+inf\<close>, the parent constructor accepts it
    and a quantizer is constructed. Its level is not a real number, so the model has no
    record for it and returns the marker \<open>NonFinite\<close>: the statements about constructed
    quantizers below do not cover this one.
\<close>

definition UniformQuantizer_init :: "int \<Rightarrow> real \<Rightarrow> string \<Rightarrow> error + UniformQuantizer" where
  "UniformQuantizer_init n p t =
     (if t = ''unsigned'' then
        (if n = 0 then Inl ZeroDivisionError
         else finish_init (p / real_of_int n)
                (map (\<lambda>k. p * k / real_of_int n) (arange 0 n)) p t)
      else if t = ''mid-riser'' then
        (if n = 0 then Inl ZeroDivisionError
         else if n div 2 = 0 then (if p = 0 then Inl ValueError else Inl NonFinite)
         else finish_init ((2 * p) / real_of_int n)
                (map (\<lambda>k. p * k / real_of_int (n div 2)) (arange ((- n) div 2) (n div 2))) p t)
      else if t = ''mid-tread'' then
        (if n = 0 then Inl ZeroDivisionError
         else if n div 2 = 0 then (if p = 0 then Inl ValueError else Inl NonFinite)
         else finish_init ((2 * p) / real_of_int n)
                (map (\<lambda>k. p * k / real_of_int (n div 2) + ((2 * p) / real_of_int n) / 2)
                   (arange ((- n) div 2) (n div 2))) p t)
      else Inl ValueError)"

text \<open>
  The closed forms, for one element:
  \<open>delta * np.floor(x / delta + 0.5)\<close> and \<open>delta * (np.floor(x / delta) + 0.5)\<close>,
  in exact arithmetic. In doubles the quotient and the products are rounded, so the value
  of the source can differ from the value here in the last bit, and by a whole step where
  the rounded quotient falls on the other side of a half-integer; the two agree when
  \<open>x\<close> and \<open>delta\<close> are binary fractions of moderate size.
\<close>

definition mid_riser_formula :: "real \<Rightarrow> real \<Rightarrow> real" where
  "mid_riser_formula delta x = delta * real_of_int \<lfloor>x / delta + 0.5\<rfloor>"

definition mid_tread_formula :: "real \<Rightarrow> real \<Rightarrow> real" where
  "mid_tread_formula delta x = delta * (real_of_int \<lfloor>x / delta\<rfloor> + 0.5)"

text \<open>
  \<open>_quantize_mid_riser\<close> and \<open>_quantize_mid_tread\<close> apply them to the whole
  array. The array is divided by the step: with a zero step numpy does not raise, and
  every element of the result is an infinity or a NaN (\<open>NonFinite\<close>).
\<close>

definition quantize_mid_riser :: "UniformQuantizer \<Rightarrow> ndarray \<Rightarrow> error + ndarray" where
  "quantize_mid_riser q input_signal =
     (let delta = quantization_step q
      in if delta = 0 \<and> rows input_signal \<noteq> [] then Inl NonFinite
         else Inr (elementwise (mid_riser_formula delta) input_signal))"

definition quantize_mid_tread :: "UniformQuantizer \<Rightarrow> ndarray \<Rightarrow> error + ndarray" where
  "quantize_mid_tread q input_signal =
     (let delta = quantization_step q
      in if delta = 0 \<and> rows input_signal \<noteq> [] then Inl NonFinite
         else Inr (elementwise (mid_tread_formula delta) input_signal))"

text \<open>
  \<open>UniformQuantizer.__call__\<close>. The unsigned branch returns the integer 0; a type
  that is none of the three falls off the end of the method, which returns \<open>None\<close>.
\<close>

definition UniformQuantizer_call :: "UniformQuantizer \<Rightarrow> ndarray \<Rightarrow> error + ndarray option" where
  "UniformQuantizer_call q input_signal =
     (if qtype q = ''unsigned'' then Inr (Some (Scalar 0))
      else if qtype q = ''mid-riser'' then map_sum id Some (quantize_mid_riser q input_signal)
      else if qtype q = ''mid-tread'' then map_sum id Some (quantize_mid_tread q input_signal)
      else Inr None)"


subsection \<open>Vocabulary for the statements\<close>

text \<open>The three type strings that \<open>UniformQuantizer.__init__\<close> accepts.\<close>

definition recognized :: "string \<Rightarrow> bool" where
  "recognized t \<longleftrightarrow> t = ''unsigned'' \<or> t = ''mid-riser'' \<or> t = ''mid-tread''"

text \<open>
  The step and the levels that the three branches of \<open>UniformQuantizer.__init__\<close>
  compute, collected from the definition of \<open>UniformQuantizer_init\<close> above (lemma
  \<open>uniform_init_unfold\<close> below relates them).
\<close>

definition derived_step :: "int \<Rightarrow> real \<Rightarrow> string \<Rightarrow> real" where
  "derived_step n p t = (if t = ''unsigned'' then p / real_of_int n else (2 * p) / real_of_int n)"

definition derived_levels :: "int \<Rightarrow> real \<Rightarrow> string \<Rightarrow> real list" where
  "derived_levels n p t =
     (if t = ''unsigned'' then map (\<lambda>k. p * k / real_of_int n) (arange 0 n)
      else if t = ''mid-riser'' then
        map (\<lambda>k. p * k / real_of_int (n div 2)) (arange ((- n) div 2) (n div 2))
      else map (\<lambda>k. p * k / real_of_int (n div 2) + ((2 * p) / real_of_int n) / 2)
             (arange ((- n) div 2) (n div 2)))"

text \<open>
  The level that \<open>ScalarQuantizer.__call__\<close> selects for one input element:
  \<open>levels[np.sum(x > thresholds)]\<close>.
\<close>

definition selected_level :: "'a ScalarQuantizer_scheme \<Rightarrow> real \<Rightarrow> real" where
  "selected_level q x = levels q ! count_exceeded (thresholds q) x"

text \<open>numpy's \<open>shape\<close>: \<open>()\<close> for a scalar, \<open>(n,)\<close> for an array of length n.\<close>

fun shape :: "ndarray \<Rightarrow> nat list" where
  "shape (Scalar x) = []"
| "shape (Array xs) = [length xs]"


text \<open>
  The interleaving as the specification writes it:
  \<open>levels[0], thresholds[0], levels[1], thresholds[1], \<dots>, levels[L-1]\<close>.
\<close>

fun spec_interleaving :: "real list \<Rightarrow> real list \<Rightarrow> real list" where
  "spec_interleaving [] ts = []"
| "spec_interleaving (v # vs) [] = [v]"
| "spec_interleaving (v # vs) (t # ts) = v # t # spec_interleaving vs ts"






subsection \<open>The quantizers of the docstrings, and one with an odd number of levels\<close>

text \<open>\<open>ScalarQuantizer(levels=[-1.0, 0.0, 1.0], thresholds=[-0.5, 0.8])\<close>\<close>

definition generic3 :: ScalarQuantizer where
  "generic3 = \<lparr>levels = [- 1, 0, 1], thresholds = [- 0.5, 0.8], num_levels = 3\<rparr>"

text \<open>\<open>UniformQuantizer(num_levels=4, input_peak=1.0, type_='unsigned')\<close>\<close>

definition unsigned4 :: UniformQuantizer where
  "unsigned4 = \<lparr>levels = [0, 0.25, 0.5, 0.75], thresholds = [0.125, 0.375, 0.625],
     num_levels = 4, quantization_step = 0.25, input_peak = 1, qtype = ''unsigned''\<rparr>"

text \<open>\<open>UniformQuantizer(num_levels=4, input_peak=1.0, type_='mid-riser')\<close>\<close>

definition mid_riser4 :: UniformQuantizer where
  "mid_riser4 = \<lparr>levels = [- 1, - 0.5, 0, 0.5], thresholds = [- 0.75, - 0.25, 0.25],
     num_levels = 4, quantization_step = 0.5, input_peak = 1, qtype = ''mid-riser''\<rparr>"

text \<open>\<open>UniformQuantizer(num_levels=4, input_peak=1.0, type_='mid-tread')\<close>\<close>

definition mid_tread4 :: UniformQuantizer where
  "mid_tread4 = \<lparr>levels = [- 0.75, - 0.25, 0.25, 0.75], thresholds = [- 0.5, 0, 0.5],
     num_levels = 4, quantization_step = 0.5, input_peak = 1, qtype = ''mid-tread''\<rparr>"


text \<open>\<open>UniformQuantizer(num_levels=3, input_peak=1.0, type_='mid-riser')\<close>\<close>

definition mid_riser3 :: UniformQuantizer where
  "mid_riser3 = \<lparr>levels = [- 2, - 1, 0], thresholds = [- (5 / 3), - (2 / 3)],
     num_levels = 3, quantization_step = 2 / 3, input_peak = 1, qtype = ''mid-riser''\<rparr>"

section \<open>Properties\<close>

subsection \<open>The constructor and the search of ScalarQuantizer\<close>

lemma np_unique_fixed: "np_unique xs = xs \<longleftrightarrow> sorted_wrt (<) xs"
proof
  assume h: "np_unique xs = xs"
  have "sorted (sort (remdups xs))" "distinct (sort (remdups xs))" by simp_all
  then have "sorted xs" "distinct xs" using h unfolding np_unique_def by simp_all
  then show "sorted_wrt (<) xs" by (simp add: strict_sorted_iff)
next
  assume "sorted_wrt (<) xs"
  then have "sorted xs" "distinct xs" by (simp_all add: strict_sorted_iff)
  then show "np_unique xs = xs" unfolding np_unique_def
    by (simp add: distinct_remdups_id sorted_sort_id)
qed

lemma length_interleaved: "length (interleaved ls ts) = 2 * length ls - 1"
  by (simp add: interleaved_def)

lemma interleaved_even: "2 * i < 2 * length ls - 1 \<Longrightarrow> interleaved ls ts ! (2 * i) = ls ! i"
  by (simp add: interleaved_def)

lemma interleaved_odd: "Suc (2 * i) < 2 * length ls - 1 \<Longrightarrow> interleaved ls ts ! Suc (2 * i) = ts ! i"
  by (simp add: interleaved_def)

lemma count_exceeded_le: "count_exceeded ts x \<le> length ts"
  by (simp add: count_exceeded_def)

lemma count_exceeded_mono: "x \<le> y \<Longrightarrow> count_exceeded ts x \<le> count_exceeded ts y"
  unfolding count_exceeded_def
  by (induction ts) auto

lemma init_Inr_iff:
  "ScalarQuantizer_init ls ts = Inr q \<longleftrightarrow>
     length ls = Suc (length ts) \<and> sorted_wrt (<) (interleaved ls ts) \<and>
     q = \<lparr>levels = ls, thresholds = ts, num_levels = int (length ls)\<rparr>"
  unfolding ScalarQuantizer_init_def np_unique_fixed by auto

lemma level_below_threshold:
  assumes "length ls = Suc (length ts)" "sorted_wrt (<) (interleaved ls ts)"
    and "i \<le> j" "j < length ts"
  shows "ls ! i < ts ! j"
proof -
  have "interleaved ls ts ! (2 * i) < interleaved ls ts ! (2 * j + 1)"
    using assms sorted_wrt_nth_less [of "(<)" "interleaved ls ts" "2 * i" "2 * j + 1"]
    by (simp add: length_interleaved)
  then show ?thesis using assms by (simp add: interleaved_even interleaved_odd)
qed

lemma threshold_below_level:
  assumes "length ls = Suc (length ts)" "sorted_wrt (<) (interleaved ls ts)"
    and "j < i" "i < length ls"
  shows "ts ! j < ls ! i"
proof -
  have "interleaved ls ts ! (2 * j + 1) < interleaved ls ts ! (2 * i)"
    using assms sorted_wrt_nth_less [of "(<)" "interleaved ls ts" "2 * j + 1" "2 * i"]
    by (simp add: length_interleaved)
  then show ?thesis using assms by (simp add: interleaved_even interleaved_odd)
qed

lemma levels_increasing:
  assumes "length ls = Suc (length ts)" "sorted_wrt (<) (interleaved ls ts)"
    and "i \<le> j" "j < length ls"
  shows "ls ! i \<le> ls ! j"
proof (cases "i = j")
  case True then show ?thesis by simp
next
  case False
  then have "interleaved ls ts ! (2 * i) < interleaved ls ts ! (2 * j)"
    using assms sorted_wrt_nth_less [of "(<)" "interleaved ls ts" "2 * i" "2 * j"]
    by (simp add: length_interleaved)
  then show ?thesis using assms by (simp add: interleaved_even)
qed

lemma count_exceeded_card:
  "count_exceeded ts x = card {j. j < length ts \<and> ts ! j < x}"
  by (simp add: count_exceeded_def length_filter_conv_card)

lemma count_exceeded_eqI:
  assumes "i \<le> length ts" "\<And>j. j < length ts \<Longrightarrow> ts ! j < x \<longleftrightarrow> j < i"
  shows "count_exceeded ts x = i"
proof -
  have "{j. j < length ts \<and> ts ! j < x} = {..<i}"
    using assms by auto
  then show ?thesis by (simp add: count_exceeded_card)
qed

lemma count_exceeded_level:
  assumes "length ls = Suc (length ts)" "sorted_wrt (<) (interleaved ls ts)" "i < length ls"
  shows "count_exceeded ts (ls ! i) = i"
proof (rule count_exceeded_eqI)
  show "i \<le> length ts" using assms by simp
next
  fix j assume j: "j < length ts"
  show "ts ! j < ls ! i \<longleftrightarrow> j < i"
  proof
    assume "ts ! j < ls ! i"
    show "j < i"
    proof (rule ccontr)
      assume "\<not> j < i"
      then have "ls ! i < ts ! j" using assms j by (intro level_below_threshold) simp_all
      with \<open>ts ! j < ls ! i\<close> show False by simp
    qed
  next
    assume "j < i"
    then show "ts ! j < ls ! i" using assms by (intro threshold_below_level) simp_all
  qed
qed

subsection \<open>The constructor of UniformQuantizer\<close>

lemma length_derived_thresholds: "length (derived_thresholds d ls) = length ls - 1"
  by (simp add: derived_thresholds_def)

lemma nth_derived_thresholds:
  "Suc i < length ls \<Longrightarrow> derived_thresholds d ls ! i = ls ! i + d / 2"
  by (simp add: derived_thresholds_def nth_butlast)

lemma finish_init_Inr_iff:
  "finish_init d ls p t = Inr q \<longleftrightarrow>
     ls \<noteq> [] \<and> sorted_wrt (<) (interleaved ls (derived_thresholds d ls)) \<and>
     q = \<lparr>levels = ls, thresholds = derived_thresholds d ls,
          num_levels = int (length ls), quantization_step = d, input_peak = p, qtype = t\<rparr>"
proof -
  define ts where "ts = derived_thresholds d ls"
  have len: "length ls = Suc (length ts) \<longleftrightarrow> ls \<noteq> []"
    unfolding ts_def by (cases ls) (simp_all add: length_derived_thresholds)
  show ?thesis
  proof (cases "ScalarQuantizer_init ls ts")
    case (Inl e)
    then have "finish_init d ls p t = Inl e" by (simp add: finish_init_def ts_def)
    moreover have "\<not> (ls \<noteq> [] \<and> sorted_wrt (<) (interleaved ls ts))"
      using Inl init_Inr_iff [of ls ts] len by auto
    ultimately show ?thesis unfolding ts_def [symmetric] by auto
  next
    case (Inr g)
    then have f: "finish_init d ls p t = Inr \<lparr>levels = levels g, thresholds = thresholds g,
        num_levels = num_levels g, quantization_step = d, input_peak = p, qtype = t\<rparr>"
      by (simp add: finish_init_def ts_def)
    from Inr have g: "ls \<noteq> []" "sorted_wrt (<) (interleaved ls ts)"
      "g = \<lparr>levels = ls, thresholds = ts, num_levels = int (length ls)\<rparr>"
      using len by (simp_all add: init_Inr_iff)
    have "finish_init d ls p t = Inr \<lparr>levels = ls, thresholds = ts,
        num_levels = int (length ls), quantization_step = d, input_peak = p, qtype = t\<rparr>"
      unfolding f g(3) by simp
    with g(1,2) show ?thesis unfolding ts_def [symmetric] by auto
  qed
qed

lemma length_arange: "length (arange a b) = nat (b - a)"
  by (simp add: arange_def)


lemma uniform_init_unfold:
  "UniformQuantizer_init n p t =
     (if \<not> recognized t then Inl ValueError
      else if n = 0 then Inl ZeroDivisionError
      else if t \<noteq> ''unsigned'' \<and> n div 2 = 0 then
        (if p = 0 then Inl ValueError else Inl NonFinite)
      else finish_init (derived_step n p t) (derived_levels n p t) p t)"
  by (simp add: UniformQuantizer_init_def recognized_def derived_step_def derived_levels_def)

lemma length_derived_levels: "length (derived_levels n p t) = nat n"
proof -
  have "n div 2 - (- n) div 2 = n" by presburger
  then show ?thesis by (simp add: derived_levels_def length_arange)
qed

lemma uniform_init_Inr_iff:
  "UniformQuantizer_init n p t = Inr q \<longleftrightarrow>
     recognized t \<and> 1 \<le> n \<and> (t \<noteq> ''unsigned'' \<longrightarrow> 2 \<le> n) \<and>
     sorted_wrt (<) (interleaved (derived_levels n p t)
        (derived_thresholds (derived_step n p t) (derived_levels n p t))) \<and>
     q = \<lparr>levels = derived_levels n p t,
          thresholds = derived_thresholds (derived_step n p t) (derived_levels n p t),
          num_levels = n, quantization_step = derived_step n p t, input_peak = p, qtype = t\<rparr>"
proof -
  have ne: "derived_levels n p t \<noteq> [] \<longleftrightarrow> 1 \<le> n"
    using length_derived_levels [of n p t] by (cases "derived_levels n p t") auto
  have d2: "n div 2 = 0 \<longleftrightarrow> n = 0 \<or> n = 1" by presburger
  show ?thesis
    unfolding uniform_init_unfold
    by (auto simp add: finish_init_Inr_iff ne d2 length_derived_levels)
qed

subsection \<open>The levels of an even number of levels lie on a grid\<close>


subsection \<open>The interleaving of the specification\<close>

lemma length_spec_interleaving:
  "length ls = Suc (length ts) \<Longrightarrow> length (spec_interleaving ls ts) = 2 * length ls - 1"
  by (induction ls ts rule: spec_interleaving.induct) auto

lemma nth_spec_interleaving:
  "length ls = Suc (length ts) \<Longrightarrow> j < 2 * length ls - 1 \<Longrightarrow>
   spec_interleaving ls ts ! j = (if even j then ls ! (j div 2) else ts ! (j div 2))"
proof (induction ls ts arbitrary: j rule: spec_interleaving.induct)
  case (1 ts)
  then show ?case by simp
next
  case (2 v vs)
  then show ?case by simp
next
  case (3 v vs t ts)
  show ?case
  proof (cases j)
    case 0
    then show ?thesis by simp
  next
    case (Suc j1)
    show ?thesis
    proof (cases j1)
      case 0
      with Suc show ?thesis by simp
    next
      case (Suc j2)
      with \<open>j = Suc j1\<close> have j: "j = Suc (Suc j2)" by simp
      with 3 have "spec_interleaving vs ts ! j2 = (if even j2 then vs ! (j2 div 2) else ts ! (j2 div 2))"
        by simp
      then show ?thesis unfolding j by simp
    qed
  qed
qed

lemma nth_interleaved:
  "j < 2 * length ls - 1 \<Longrightarrow>
   interleaved ls ts ! j = (if even j then ls ! (j div 2) else ts ! (j div 2))"
  by (simp add: interleaved_def)

lemma interleaved_eq_spec:
  assumes "length ls = Suc (length ts)"
  shows "interleaved ls ts = spec_interleaving ls ts"
proof (rule nth_equalityI)
  show "length (interleaved ls ts) = length (spec_interleaving ls ts)"
    using assms by (simp add: length_interleaved length_spec_interleaving)
next
  fix j assume "j < length (interleaved ls ts)"
  then have j: "j < 2 * length ls - 1" by (simp add: length_interleaved)
  show "interleaved ls ts ! j = spec_interleaving ls ts ! j"
    unfolding nth_interleaved [OF j] nth_spec_interleaving [OF assms j] ..
qed

subsection \<open>The two quantize operations on constructed quantizers\<close>

lemma rows_elementwise: "rows (elementwise f a) = map f (rows a)"
  by (cases a) simp_all

lemma elementwise_elementwise: "elementwise f (elementwise g a) = elementwise (f \<circ> g) a"
  by (cases a) simp_all

lemma call_in_range:
  assumes "length (levels q) = Suc (length (thresholds q))"
  shows "ScalarQuantizer_call q a = Inr (Array (map (selected_level q) (rows a)))"
proof -
  have "count_exceeded (thresholds q) x < length (levels q)" for x
    using count_exceeded_le [of "thresholds q" x] assms by simp
  then have "list_all (\<lambda>i. i < length (levels q)) (map (count_exceeded (thresholds q)) (rows a))"
    by (simp add: list_all_iff)
  then show ?thesis
    by (simp add: ScalarQuantizer_call_def selected_level_def Let_def comp_def)
qed

lemma call_after_init:
  assumes "ScalarQuantizer_init ls ts = Inr g"
  shows "ScalarQuantizer_call g a = Inr (Array (map (selected_level g) (rows a)))"
  using assms by (intro call_in_range) (simp add: init_Inr_iff)

lemma selected_level_mono:
  assumes "length (levels q) = Suc (length (thresholds q))"
    and "sorted_wrt (<) (interleaved (levels q) (thresholds q))" and "x \<le> y"
  shows "selected_level q x \<le> selected_level q y"
  unfolding selected_level_def
proof (rule levels_increasing [OF assms(1,2)])
  show "count_exceeded (thresholds q) x \<le> count_exceeded (thresholds q) y"
    using assms(3) by (rule count_exceeded_mono)
  show "count_exceeded (thresholds q) y < length (levels q)"
    using count_exceeded_le [of "thresholds q" y] assms(1) by simp
qed

lemma selected_level_idem:
  assumes "length (levels q) = Suc (length (thresholds q))"
    and "sorted_wrt (<) (interleaved (levels q) (thresholds q))"
  shows "selected_level q (selected_level q x) = selected_level q x"
proof -
  have "count_exceeded (thresholds q) x < length (levels q)"
    using count_exceeded_le [of "thresholds q" x] assms(1) by simp
  then show ?thesis
    unfolding selected_level_def by (simp add: count_exceeded_level [OF assms])
qed


lemma mid_riser_formula_mono:
  assumes "0 < d" "x \<le> y"
  shows "mid_riser_formula d x \<le> mid_riser_formula d y"
proof -
  have "x / d + 0.5 \<le> y / d + 0.5" using assms by (simp add: divide_right_mono)
  then have "\<lfloor>x / d + 0.5\<rfloor> \<le> \<lfloor>y / d + 0.5\<rfloor>" by (rule floor_mono)
  then show ?thesis using assms(1) by (simp add: mid_riser_formula_def)
qed

lemma mid_tread_formula_mono:
  assumes "0 < d" "x \<le> y"
  shows "mid_tread_formula d x \<le> mid_tread_formula d y"
proof -
  have "x / d \<le> y / d" using assms by (simp add: divide_right_mono)
  then have "\<lfloor>x / d\<rfloor> \<le> \<lfloor>y / d\<rfloor>" by (rule floor_mono)
  then show ?thesis using assms(1) by (simp add: mid_tread_formula_def)
qed

lemma mid_riser_formula_idem:
  assumes "d \<noteq> 0"
  shows "mid_riser_formula d (mid_riser_formula d x) = mid_riser_formula d x"
proof -
  define k where "k = \<lfloor>x / d + 0.5\<rfloor>"
  have "\<lfloor>real_of_int k + 0.5\<rfloor> = k" by linarith
  then show ?thesis using assms
    by (simp add: mid_riser_formula_def k_def [symmetric])
qed

lemma mid_tread_formula_idem:
  assumes "d \<noteq> 0"
  shows "mid_tread_formula d (mid_tread_formula d x) = mid_tread_formula d x"
proof -
  define k where "k = \<lfloor>x / d\<rfloor>"
  have "\<lfloor>real_of_int k + 0.5\<rfloor> = k" by linarith
  then show ?thesis using assms
    by (simp add: mid_tread_formula_def k_def [symmetric])
qed

lemma uniform_init_fields:
  assumes "UniformQuantizer_init n p t = Inr q"
  shows "recognized t" "1 \<le> n" "t \<noteq> ''unsigned'' \<Longrightarrow> 2 \<le> n"
    "levels q = derived_levels n p t"
    "thresholds q = derived_thresholds (derived_step n p t) (derived_levels n p t)"
    "num_levels q = n" "quantization_step q = derived_step n p t"
    "input_peak q = p" "qtype q = t"
    "length (levels q) = nat n"
    "length (levels q) = Suc (length (thresholds q))"
    "sorted_wrt (<) (interleaved (levels q) (thresholds q))"
proof -
  note h = assms [unfolded uniform_init_Inr_iff]
  from h show "recognized t" "1 \<le> n" "t \<noteq> ''unsigned'' \<Longrightarrow> 2 \<le> n" by simp_all
  from h show l: "levels q = derived_levels n p t"
    and th: "thresholds q = derived_thresholds (derived_step n p t) (derived_levels n p t)"
    and "num_levels q = n" "quantization_step q = derived_step n p t"
    "input_peak q = p" "qtype q = t" by simp_all
  from l show len: "length (levels q) = nat n" by (simp add: length_derived_levels)
  from h have "0 < nat n" by simp
  with len show "length (levels q) = Suc (length (thresholds q))"
    unfolding th by (simp add: length_derived_thresholds l [symmetric])
  from h show "sorted_wrt (<) (interleaved (levels q) (thresholds q))"
    unfolding l th by simp
qed

lemma uniform_step_pos:
  assumes "UniformQuantizer_init n p t = Inr q" "2 \<le> n"
  shows "0 < quantization_step q"
proof -
  note f = uniform_init_fields [OF assms(1)]
  have l2: "Suc 0 < length (levels q)" using f(10) assms(2) by simp
  then have "0 < length (thresholds q)" using f(11) by simp
  then have "levels q ! 0 < thresholds q ! 0"
    using level_below_threshold [OF f(11) f(12), of 0 0] by simp
  moreover have "thresholds q ! 0 = levels q ! 0 + quantization_step q / 2"
    using l2 unfolding f(5) f(7) f(4) [symmetric] by (rule nth_derived_thresholds)
  ultimately show ?thesis by simp
qed

lemma uniform_call_unsigned:
  assumes "UniformQuantizer_init n p ''unsigned'' = Inr q"
  shows "UniformQuantizer_call q a = Inr (Some (Scalar 0))"
  using uniform_init_fields(9) [OF assms] by (simp add: UniformQuantizer_call_def)

lemma uniform_call_mid_riser:
  assumes "UniformQuantizer_init n p ''mid-riser'' = Inr q"
  shows "UniformQuantizer_call q a =
    Inr (Some (elementwise (mid_riser_formula (quantization_step q)) a))"
proof -
  have "2 \<le> n" using uniform_init_fields(3) [OF assms] by simp
  then have "quantization_step q \<noteq> 0" using uniform_step_pos [OF assms] by simp
  then show ?thesis using uniform_init_fields(9) [OF assms]
    by (simp add: UniformQuantizer_call_def quantize_mid_riser_def)
qed

lemma uniform_call_mid_tread:
  assumes "UniformQuantizer_init n p ''mid-tread'' = Inr q"
  shows "UniformQuantizer_call q a =
    Inr (Some (elementwise (mid_tread_formula (quantization_step q)) a))"
proof -
  have "2 \<le> n" using uniform_init_fields(3) [OF assms] by simp
  then have "quantization_step q \<noteq> 0" using uniform_step_pos [OF assms] by simp
  then show ?thesis using uniform_init_fields(9) [OF assms]
    by (simp add: UniformQuantizer_call_def quantize_mid_tread_def)
qed

text \<open>What the call of a constructed uniform quantizer does to one element.\<close>

lemma uniform_call_cases:
  assumes "UniformQuantizer_init n p t = Inr q"
  obtains (unsigned) "t = ''unsigned''" "\<And>a. UniformQuantizer_call q a = Inr (Some (Scalar 0))"
  | (mid_riser) "t = ''mid-riser''" "0 < quantization_step q"
      "\<And>a. UniformQuantizer_call q a =
         Inr (Some (elementwise (mid_riser_formula (quantization_step q)) a))"
  | (mid_tread) "t = ''mid-tread''" "0 < quantization_step q"
      "\<And>a. UniformQuantizer_call q a =
         Inr (Some (elementwise (mid_tread_formula (quantization_step q)) a))"
proof -
  note f = uniform_init_fields [OF assms]
  from f(1) consider "t = ''unsigned''" | "t = ''mid-riser''" | "t = ''mid-tread''"
    unfolding recognized_def by blast
  then show thesis
  proof cases
    case 1
    with assms unsigned show ?thesis by (simp add: uniform_call_unsigned)
  next
    case 2
    then have "0 < quantization_step q" using f(3) uniform_step_pos [OF assms] by simp
    with 2 assms mid_riser show ?thesis by (simp add: uniform_call_mid_riser)
  next
    case 3
    then have "0 < quantization_step q" using f(3) uniform_step_pos [OF assms] by simp
    with 3 assms mid_tread show ?thesis by (simp add: uniform_call_mid_tread)
  qed
qed

subsection \<open>The interval of a level, as the search has it\<close>

text \<open>
  The thresholds that an input strictly exceeds are an initial segment of the (increasing)
  thresholds, so the search returns the level \<open>v\<^sub>i\<close> with \<open>t\<^sub>i < x \<le> t\<^sub>i\<^sub>+\<^sub>1\<close>
  (lemma \<open>selected_level_interval\<close>; the stored list \<open>ts\<close> holds \<open>t\<^sub>1 \<dots> t\<^sub>L\<^sub>-\<^sub>1\<close>,
  so \<open>t\<^sub>i\<close> is \<open>ts ! (i - 1)\<close>).
\<close>

lemma down_closed_eq_lessThan:
  fixes S :: "nat set"
  assumes fin: "finite S" and down: "\<And>j k. k \<in> S \<Longrightarrow> j \<le> k \<Longrightarrow> j \<in> S"
  shows "S = {..<card S}"
proof -
  have sub: "{..<card S} \<subseteq> S"
  proof
    fix k assume k: "k \<in> {..<card S}"
    show "k \<in> S"
    proof (rule ccontr)
      assume "k \<notin> S"
      then have "S \<subseteq> {..<k}" using down by (metis lessThan_iff not_le_imp_less subsetI)
      then have "card S \<le> card {..<k}" by (intro card_mono) simp_all
      with k show False by simp
    qed
  qed
  have "card {..<card S} = card S" by simp
  with sub fin show ?thesis by (metis card_subset_eq)
qed

lemma thresholds_increasing:
  assumes "length ls = Suc (length ts)" "sorted_wrt (<) (interleaved ls ts)"
    and "i \<le> j" "j < length ts"
  shows "ts ! i \<le> ts ! j"
proof (cases "i = j")
  case True then show ?thesis by simp
next
  case False
  then have "interleaved ls ts ! Suc (2 * i) < interleaved ls ts ! Suc (2 * j)"
    using assms sorted_wrt_nth_less [of "(<)" "interleaved ls ts" "Suc (2 * i)" "Suc (2 * j)"]
    by (simp add: length_interleaved)
  then show ?thesis using assms by (simp add: interleaved_odd)
qed

lemma count_exceeded_prefix:
  assumes len: "length ls = Suc (length ts)" and srt: "sorted_wrt (<) (interleaved ls ts)"
    and j: "j < length ts"
  shows "ts ! j < x \<longleftrightarrow> j < count_exceeded ts x"
proof -
  define S where "S = {j. j < length ts \<and> ts ! j < x}"
  have fin: "finite S" unfolding S_def by simp
  have down: "j \<in> S" if "k \<in> S" "j \<le> k" for j k
  proof -
    from that have k: "k < length ts" "ts ! k < x" by (simp_all add: S_def)
    have "ts ! j \<le> ts ! k" using len srt that(2) k(1) by (rule thresholds_increasing)
    with k that(2) show ?thesis by (simp add: S_def)
  qed
  have "S = {..<card S}" using fin down by (rule down_closed_eq_lessThan)
  moreover have "card S = count_exceeded ts x" by (simp add: S_def count_exceeded_card)
  ultimately have "S = {..<count_exceeded ts x}" by simp
  then have "j \<in> S \<longleftrightarrow> j < count_exceeded ts x" by simp
  then show ?thesis using j by (simp add: S_def)
qed

lemma selected_level_interval:
  assumes g: "ScalarQuantizer_init ls ts = Inr g"
  shows "selected_level g x = ls ! count_exceeded ts x"
    and "count_exceeded ts x < length ls"
    and "0 < count_exceeded ts x \<Longrightarrow> ts ! (count_exceeded ts x - 1) < x"
    and "count_exceeded ts x < length ts \<Longrightarrow> x \<le> ts ! count_exceeded ts x"
proof -
  from g have v: "length ls = Suc (length ts)" "sorted_wrt (<) (interleaved ls ts)"
    and f: "levels g = ls" "thresholds g = ts" by (auto simp add: init_Inr_iff)
  show "selected_level g x = ls ! count_exceeded ts x" by (simp add: selected_level_def f)
  show "count_exceeded ts x < length ls" using count_exceeded_le [of ts x] v(1) by simp
  show "ts ! (count_exceeded ts x - 1) < x" if "0 < count_exceeded ts x"
  proof -
    have "count_exceeded ts x - 1 < length ts" using that count_exceeded_le [of ts x] by simp
    from count_exceeded_prefix [OF v this, of x] that show ?thesis by simp
  qed
  show "x \<le> ts ! count_exceeded ts x" if "count_exceeded ts x < length ts"
    using count_exceeded_prefix [OF v that, of x] by simp
qed

subsection \<open>The example quantizers are what the constructors return\<close>

lemma init_generic3: "ScalarQuantizer_init [- 1, 0, 1] [- 0.5, 0.8] = Inr generic3"
  by code_simp


lemma init_mid_riser4: "UniformQuantizer_init 4 1 ''mid-riser'' = Inr mid_riser4"
  by code_simp

lemma init_mid_tread4: "UniformQuantizer_init 4 1 ''mid-tread'' = Inr mid_tread4"
  by code_simp


lemma init_mid_riser3: "UniformQuantizer_init 3 1 ''mid-riser'' = Inr mid_riser3"
  by code_simp

subsection \<open>The signed types with an even number of levels\<close>








subsection \<open>C1: the unsigned branch of the uniform quantizer\<close>

text \<open>
  Claim C1 says that a uniform quantizer of type \<open>unsigned\<close> quantizes as the search of
  \<open>ScalarQuantizer.__call__\<close> does over its own levels and thresholds. The code returns
  the constant 0 instead: for \<open>UniformQuantizer(4, 1.0, 'unsigned')\<close> and the input
  \<open>[0.3, 0.6]\<close> the call returns 0, where the search returns \<open>[0.25, 0.5]\<close>.
\<close>

theorem C1_unsigned_call_returns_zero:
  "UniformQuantizer_init 4 1 ''unsigned'' = Inr unsigned4 \<and>
   UniformQuantizer_call unsigned4 (Array [0.3, 0.6]) = Inr (Some (Scalar 0)) \<and>
   ScalarQuantizer_call unsigned4 (Array [0.3, 0.6]) = Inr (Array [0.25, 0.5])"
  by code_simp

subsection \<open>C2: the closed forms against the search\<close>

text \<open>
  Claim C2 says that a uniform quantizer of type mid-riser or mid-tread returns, for every
  real input, what the search of \<open>ScalarQuantizer.__call__\<close> returns over the quantizer's
  own levels and thresholds. The code does not. The closed forms do not stop at the lowest
  and the highest level, so an input near the peak already gets a value that is not a
  level: \<open>UniformQuantizer(4, 1.0, 'mid-riser')\<close> has the levels \<open>[-1, -0.5, 0, 0.5]\<close>
  and returns 1 at 0.75 and 2 at 2, where the search returns 0.5 and 0.5;
  \<open>UniformQuantizer(4, 1.0, 'mid-tread')\<close> has the levels \<open>[-0.75, -0.25, 0.25, 0.75]\<close>
  and returns 1.25 at 1, where the search returns 0.75. At an input equal to a threshold
  (0.25 for the mid-riser quantizer) the closed form returns the higher level, 0.5, and
  the search the lower one, 0. Every number here is a binary fraction, so the doubles of
  the source give the same values.
\<close>

theorem C2_closed_form_differs_from_search:
  "UniformQuantizer_init 4 1 ''mid-riser'' = Inr mid_riser4 \<and>
   UniformQuantizer_call mid_riser4 (Array [0.75, 2, 0.25]) = Inr (Some (Array [1, 2, 0.5])) \<and>
   ScalarQuantizer_call mid_riser4 (Array [0.75, 2, 0.25]) = Inr (Array [0.5, 0.5, 0]) \<and>
   UniformQuantizer_init 4 1 ''mid-tread'' = Inr mid_tread4 \<and>
   UniformQuantizer_call mid_tread4 (Array [1]) = Inr (Some (Array [1.25])) \<and>
   ScalarQuantizer_call mid_tread4 (Array [1]) = Inr (Array [0.75])"
  by code_simp

subsection \<open>C3: the interval of a level, and an input equal to a threshold\<close>

text \<open>
  Claim C3 says that the generic quantizer returns the level \<open>v\<^sub>i\<close> with
  \<open>t\<^sub>i \<le> x < t\<^sub>i\<^sub>+\<^sub>1\<close>, so that an input equal to a threshold goes to the higher level:
  for levels \<open>[-1, 0, 1]\<close> and thresholds \<open>[-0.5, 0.8]\<close>, \<open>quantize(-0.5) = 0\<close> and
  \<open>quantize(0.8) = 1\<close>. The code counts the thresholds that the input strictly
  exceeds, so an input equal to a threshold goes to the lower level: it returns \<open>-1\<close>
  and \<open>0\<close> there. At \<open>-0.51\<close> and \<open>0.79\<close> it returns \<open>-1\<close> and \<open>0\<close>, as claimed.
\<close>

theorem C3_threshold_goes_to_lower_level:
  "ScalarQuantizer_init [- 1, 0, 1] [- 0.5, 0.8] = Inr generic3 \<and>
   ScalarQuantizer_call generic3 (Array [- 0.5, 0.8, - 0.51, 0.79]) = Inr (Array [- 1, 0, - 1, 0])"
  by code_simp

subsection \<open>C4: when construction of a ScalarQuantizer fails\<close>

text \<open>
  Claim C4. \<open>ScalarQuantizer.__init__\<close> raises (its one error, \<open>ValueError\<close>) exactly
  when \<open>len(thresholds) \<noteq> len(levels) - 1\<close> or the interleaved sequence
  \<open>levels[0], thresholds[0], levels[1], \<dots>, levels[L-1]\<close> is not strictly increasing;
  in every other case it succeeds and stores the two sequences unchanged.
\<close>

theorem C4_init_fails_iff:
  "(ScalarQuantizer_init ls ts = Inl ValueError \<longleftrightarrow>
      int (length ts) \<noteq> int (length ls) - 1 \<or> \<not> sorted_wrt (<) (spec_interleaving ls ts)) \<and>
   (ScalarQuantizer_init ls ts \<noteq> Inl ValueError \<longrightarrow>
      ScalarQuantizer_init ls ts =
        Inr \<lparr>levels = ls, thresholds = ts, num_levels = int (length ls)\<rparr>)"
proof (cases "int (length ts) = int (length ls) - 1")
  case False
  then show ?thesis by (simp add: ScalarQuantizer_init_def)
next
  case True
  then have "length ls = Suc (length ts)" by linarith
  then have "interleaved ls ts = spec_interleaving ls ts" by (rule interleaved_eq_spec)
  then show ?thesis using True
    by (simp add: ScalarQuantizer_init_def np_unique_fixed)
qed

text \<open>The statement at one valid pair and at two invalid ones.\<close>

theorem C4_witness:
  "sorted_wrt (<) (spec_interleaving [- 1, 0, 1] [- 0.5, 0.8]) \<and>
   ScalarQuantizer_init [- 1, 0, 1] [- 0.5, 0.8] =
     Inr \<lparr>levels = [- 1, 0, 1], thresholds = [- 0.5, 0.8], num_levels = 3\<rparr> \<and>
   \<not> sorted_wrt (<) (spec_interleaving [- 1, 0, 1] [0.5, 0.25]) \<and>
   ScalarQuantizer_init [- 1, 0, 1] [0.5, 0.25] = Inl ValueError \<and>
   ScalarQuantizer_init [- 1, 0, 1] [0.5] = Inl ValueError"
  using C4_init_fails_iff [of "[- 1, 0, 1]" "[- 0.5, 0.8]"]
    C4_init_fails_iff [of "[- 1, 0, 1]" "[0.5, 0.25]"]
    C4_init_fails_iff [of "[- 1, 0, 1]" "[0.5]"]
  by simp

subsection \<open>C5: the derived step, levels and thresholds\<close>









subsection \<open>C6: quantization is monotone\<close>

text \<open>
  Claim C6. For every constructed quantizer, generic or uniform in any of the three modes,
  \<open>x1 \<le> x2\<close> implies \<open>quantize(x1) \<le> quantize(x2)\<close>. The inputs are compared
  element by element (\<open>rows\<close> of a scalar is the one value), and so are the outputs.
\<close>

theorem C6_monotone:
  assumes "list_all2 (\<le>) (rows a) (rows b)"
  shows "(ScalarQuantizer_init ls ts = Inr g \<longrightarrow>
           (\<exists>y z. ScalarQuantizer_call g a = Inr y \<and> ScalarQuantizer_call g b = Inr z \<and>
                  list_all2 (\<le>) (rows y) (rows z))) \<and>
         (UniformQuantizer_init n p t = Inr q \<longrightarrow>
           (\<exists>y z. UniformQuantizer_call q a = Inr (Some y) \<and>
                  UniformQuantizer_call q b = Inr (Some z) \<and>
                  list_all2 (\<le>) (rows y) (rows z)))"
proof (intro conjI impI)
  assume g: "ScalarQuantizer_init ls ts = Inr g"
  then have v: "length (levels g) = Suc (length (thresholds g))"
    "sorted_wrt (<) (interleaved (levels g) (thresholds g))"
    by (simp_all add: init_Inr_iff)
  have "list_all2 (\<le>) (map (selected_level g) (rows a)) (map (selected_level g) (rows b))"
    unfolding list_all2_map1 list_all2_map2
    using assms by (rule list_all2_mono) (rule selected_level_mono [OF v])
  then show "\<exists>y z. ScalarQuantizer_call g a = Inr y \<and> ScalarQuantizer_call g b = Inr z \<and>
      list_all2 (\<le>) (rows y) (rows z)"
    by (simp add: call_after_init [OF g])
next
  assume q: "UniformQuantizer_init n p t = Inr q"
  then show "\<exists>y z. UniformQuantizer_call q a = Inr (Some y) \<and>
      UniformQuantizer_call q b = Inr (Some z) \<and> list_all2 (\<le>) (rows y) (rows z)"
  proof (cases rule: uniform_call_cases)
    case unsigned
    then show ?thesis by simp
  next
    case mid_riser
    have "list_all2 (\<le>) (map (mid_riser_formula (quantization_step q)) (rows a))
       (map (mid_riser_formula (quantization_step q)) (rows b))"
      unfolding list_all2_map1 list_all2_map2
      using assms by (rule list_all2_mono) (rule mid_riser_formula_mono [OF mid_riser(2)])
    then show ?thesis by (simp add: mid_riser(3) rows_elementwise)
  next
    case mid_tread
    have "list_all2 (\<le>) (map (mid_tread_formula (quantization_step q)) (rows a))
       (map (mid_tread_formula (quantization_step q)) (rows b))"
      unfolding list_all2_map1 list_all2_map2
      using assms by (rule list_all2_mono) (rule mid_tread_formula_mono [OF mid_tread(2)])
    then show ?thesis by (simp add: mid_tread(3) rows_elementwise)
  qed
qed

text \<open>
  The statement at the scalars \<open>-0.7 \<le> 0.3\<close>, for the generic quantizer of the
  docstring and the mid-tread quantizer with four levels.
\<close>

theorem C6_witness:
  "list_all2 (\<le>) (rows (Scalar (- 0.7))) (rows (Scalar 0.3)) \<and>
   ScalarQuantizer_init [- 1, 0, 1] [- 0.5, 0.8] = Inr generic3 \<and>
   UniformQuantizer_init 4 1 ''mid-tread'' = Inr mid_tread4 \<and>
   (\<exists>y z. ScalarQuantizer_call generic3 (Scalar (- 0.7)) = Inr y \<and>
          ScalarQuantizer_call generic3 (Scalar 0.3) = Inr z \<and>
          list_all2 (\<le>) (rows y) (rows z)) \<and>
   (\<exists>y z. UniformQuantizer_call mid_tread4 (Scalar (- 0.7)) = Inr (Some y) \<and>
          UniformQuantizer_call mid_tread4 (Scalar 0.3) = Inr (Some z) \<and>
          list_all2 (\<le>) (rows y) (rows z))"
proof -
  have h: "list_all2 (\<le>) (rows (Scalar (- 0.7))) (rows (Scalar 0.3))" by simp
  show ?thesis
    using h init_generic3 init_mid_tread4
      C6_monotone [OF h, of "[- 1, 0, 1]" "[- 0.5, 0.8]" generic3 4 1 "''mid-tread''" mid_tread4]
    by simp
qed

subsection \<open>C7: quantization is idempotent\<close>

text \<open>
  Claim C7. For every constructed quantizer, generic or uniform in any of the three modes,
  and every input, \<open>quantize(quantize(x)) = quantize(x)\<close>.
\<close>

theorem C7_idempotent:
  "(ScalarQuantizer_init ls ts = Inr g \<longrightarrow>
      (\<exists>y. ScalarQuantizer_call g a = Inr y \<and> ScalarQuantizer_call g y = Inr y)) \<and>
   (UniformQuantizer_init n p t = Inr q \<longrightarrow>
      (\<exists>y. UniformQuantizer_call q a = Inr (Some y) \<and> UniformQuantizer_call q y = Inr (Some y)))"
proof (intro conjI impI)
  assume g: "ScalarQuantizer_init ls ts = Inr g"
  then have v: "length (levels g) = Suc (length (thresholds g))"
    "sorted_wrt (<) (interleaved (levels g) (thresholds g))"
    by (simp_all add: init_Inr_iff)
  have "ScalarQuantizer_call g (Array (map (selected_level g) (rows a))) =
      Inr (Array (map (selected_level g) (rows a)))"
    by (simp add: call_after_init [OF g] comp_def selected_level_idem [OF v])
  then show "\<exists>y. ScalarQuantizer_call g a = Inr y \<and> ScalarQuantizer_call g y = Inr y"
    by (simp add: call_after_init [OF g])
next
  assume q: "UniformQuantizer_init n p t = Inr q"
  then show "\<exists>y. UniformQuantizer_call q a = Inr (Some y) \<and> UniformQuantizer_call q y = Inr (Some y)"
  proof (cases rule: uniform_call_cases)
    case unsigned
    then show ?thesis by simp
  next
    case mid_riser
    then have "quantization_step q \<noteq> 0" by simp
    then show ?thesis
      by (simp add: mid_riser(3) elementwise_elementwise comp_def mid_riser_formula_idem)
  next
    case mid_tread
    then have "quantization_step q \<noteq> 0" by simp
    then show ?thesis
      by (simp add: mid_tread(3) elementwise_elementwise comp_def mid_tread_formula_idem)
  qed
qed

text \<open>
  The statement for the generic quantizer of the docstring and the mid-riser quantizer with
  four levels, at an array input.
\<close>

theorem C7_witness:
  "ScalarQuantizer_init [- 1, 0, 1] [- 0.5, 0.8] = Inr generic3 \<and>
   UniformQuantizer_init 4 1 ''mid-riser'' = Inr mid_riser4 \<and>
   (\<exists>y. ScalarQuantizer_call generic3 (Array [- 0.7, 0.3]) = Inr y \<and>
        ScalarQuantizer_call generic3 y = Inr y) \<and>
   (\<exists>y. UniformQuantizer_call mid_riser4 (Array [- 0.7, 0.3]) = Inr (Some y) \<and>
        UniformQuantizer_call mid_riser4 y = Inr (Some y))"
  using init_generic3 init_mid_riser4
    C7_idempotent [of "[- 1, 0, 1]" "[- 0.5, 0.8]" generic3 "Array [- 0.7, 0.3]"
      4 1 "''mid-riser''" mid_riser4]
  by simp

subsection \<open>C8: the errors of construction\<close>

text \<open>
  Claim C8 says that the only failures are three \<open>ConfigurationError\<close>s of construction
  (\<open>ValueError\<close> in the source): an unknown type, and the two checks of the parent
  constructor. The code has one more: with \<open>num_levels = 0\<close> every branch of
  \<open>UniformQuantizer.__init__\<close> starts by dividing by \<open>num_levels\<close>, and raises
  \<open>ZeroDivisionError\<close> before the levels reach the checks of the parent constructor.
\<close>

theorem C8_zero_levels_raise_ZeroDivisionError:
  "UniformQuantizer_init 0 1 ''unsigned'' = Inl ZeroDivisionError \<and>
   UniformQuantizer_init 0 1 ''mid-riser'' = Inl ZeroDivisionError \<and>
   UniformQuantizer_init 0 1 ''mid-tread'' = Inl ZeroDivisionError"
  by code_simp

subsection \<open>C9: the shape of the output\<close>

text \<open>
  Claim C9 says that quantize keeps the shape of its input: a scalar gives a scalar and
  an array gives an array of the same shape. The code does not, in two places.
  \<open>ScalarQuantizer.__call__\<close> builds \<open>np.tile(x, (T, 1)).transpose()\<close> and sums over
  axis 1, so the scalar 0.3 given to \<open>ScalarQuantizer([-1, 0, 1], [-0.5, 0.8])\<close> comes
  back as the array \<open>[0.]\<close> of shape \<open>(1,)\<close>; the closed forms of the uniform quantizer
  return a scalar for a scalar (0.25 at 0.3 for the mid-tread quantizer with four levels).
  And the unsigned branch of \<open>UniformQuantizer.__call__\<close> returns the scalar 0 for an
  array of any length.
\<close>

theorem C9_shape_not_preserved:
  "ScalarQuantizer_init [- 1, 0, 1] [- 0.5, 0.8] = Inr generic3 \<and>
   ScalarQuantizer_call generic3 (Scalar 0.3) = Inr (Array [0]) \<and>
   shape (Array [0]) = [1] \<and> shape (Scalar 0.3) = [] \<and>
   UniformQuantizer_init 4 1 ''mid-tread'' = Inr mid_tread4 \<and>
   UniformQuantizer_call mid_tread4 (Scalar 0.3) = Inr (Some (Scalar 0.25)) \<and>
   UniformQuantizer_init 4 1 ''unsigned'' = Inr unsigned4 \<and>
   UniformQuantizer_call unsigned4 (Array [0.3, 0.6]) = Inr (Some (Scalar 0)) \<and>
   shape (Scalar 0) = [] \<and> shape (Array [0.3, 0.6]) = [2]"
  by code_simp

subsection \<open>C10: the closed forms do not clamp\<close>





end
